theory Spec2Isabelle
  imports Main "HOL-Library.Sublist"
begin

section \<open>Data model\<close>

text \<open>
  The program is one Streamlit script, \<^verbatim>\<open>main.py\<close>. Every run of \<^verbatim>\<open>main()\<close> reads the
  widget values of that run, reads and updates the session dictionary, and calls into its
  collaborators (document loaders, text splitter, embeddings, vector store, language
  models). The model passes the state explicitly, returns every exception as a value and
  records every call that leaves the script in a trace.
\<close>

datatype error =
    KeyError string
  | IndexError
  | FileNotFoundError string
  | LibraryError string
  | ScriptStopped

text \<open>
  \<^verbatim>\<open>st.session_state\<close> restricted to the four keys the script uses. A key that is absent
  is \<open>None\<close>. The value stored under \<^verbatim>\<open>'hf_api_key'\<close> is Python's \<^verbatim>\<open>None\<close> or a string.
\<close>

record session_state =
  history :: "(string \<times> string) list option"
  generated :: "string list option"
  past :: "string list option"
  hf_api_key :: "string option option"

record uploaded_file =
  file_name :: string
  file_bytes :: string

text \<open>
  What the page gives to one run of the script: the widget values, and whether Streamlit
  stops the run when the spinner closes. Streamlit stops a running script inside a call
  that writes to the page once a rerun has been requested, for instance because a widget
  was used while the answer was generated; the script is left there with
  \<open>ScriptStopped\<close> and the session dictionary stays as it is at that moment. The exit of
  the spinner is the one such call that lies between updates of the session dictionary
  that belong to the same turn.
\<close>

record ui_input =
  token_input :: string
  uploaded_files :: "uploaded_file list"
  submit_button :: bool
  user_input :: string
  stopped_at_spinner :: bool

datatype loader = PyPDFLoader string | Docx2txtLoader string | TextLoader string

record document =
  page_content :: string
  metadata_source :: string

record splitter =
  separator :: string
  chunk_size :: nat
  chunk_overlap :: nat

datatype memory = ConversationBufferMemory string bool

datatype 'vs retriever = Retriever 'vs nat

text \<open>
  A chain is called with the question and the chat history and returns the answer or
  raises.
\<close>

type_synonym chain = "string \<Rightarrow> (string \<times> string) list \<Rightarrow> error + string"

datatype event =
    UiTitle
  | UiTokenInput
  | UiWarning
  | UiSidebar
  | UiForm
  | UiMessage string bool
  | TempWrite string
  | LoaderLoad loader
  | OsRemove string
  | SplitDocuments
  | NewEmbeddings string
  | FaissFromDocuments
  | NewLlm string
  | ChainFromLlm
  | ChainCall string "(string \<times> string) list" "error + string"

text \<open>
  The state a run works on: the session dictionary, the files in the temporary directory
  (path to content) and the trace of calls made so far.
\<close>

record world =
  session :: session_state
  tmpfs :: "string \<rightharpoonup> string"
  trace :: "event list"

text \<open>
  The collaborators, which are library code outside the repository. Each is a parameter;
  each may raise. \<open>mktemp\<close> is the name \<^verbatim>\<open>tempfile.NamedTemporaryFile\<close> picks.
\<close>

record ('emb, 'vs, 'llm) env =
  mktemp :: "(string \<rightharpoonup> string) \<Rightarrow> string"
  loader_load :: "loader \<Rightarrow> (string \<rightharpoonup> string) \<Rightarrow> error + document list"
  split_documents :: "splitter \<Rightarrow> document list \<Rightarrow> error + document list"
  HuggingFaceEmbeddings :: "string \<Rightarrow> (string \<times> string) list \<Rightarrow> error + 'emb"
  FAISS_from_documents :: "document list \<Rightarrow> 'emb \<Rightarrow> error + 'vs"
  HuggingFaceHub :: "string \<Rightarrow> (string \<times> string) list \<Rightarrow> string option \<Rightarrow> error + 'llm"
  from_llm :: "'llm \<Rightarrow> string \<Rightarrow> 'vs retriever \<Rightarrow> memory \<Rightarrow> error + chain"

definition log :: "event list \<Rightarrow> world \<Rightarrow> world" where
  "log evs w = w\<lparr>trace := trace w @ evs\<rparr>"

text \<open>Python's truth value of \<^verbatim>\<open>None\<close> or a string.\<close>

definition truthy :: "string option \<Rightarrow> bool" where
  "truthy k = (case k of None \<Rightarrow> False | Some s \<Rightarrow> s \<noteq> [])"

section \<open>Session state\<close>

text \<open>The second greeting ends in U+1F44B, written here as its four UTF-8 bytes.\<close>

definition greeting_generated :: string where
  "greeting_generated = ''Hello! Ask me anything about your documents.''"

definition greeting_past :: string where
  "greeting_past = ''Hey! '' @ [CHR 0xF0, CHR 0x9F, CHR 0x91, CHR 0x8B]"

definition initialize_session_state :: "session_state \<Rightarrow> session_state" where
  "initialize_session_state s =
     (let s1 = (if history s = None then s\<lparr>history := Some []\<rparr> else s);
          s2 = (if generated s1 = None then s1\<lparr>generated := Some [greeting_generated]\<rparr> else s1);
          s3 = (if past s2 = None then s2\<lparr>past := Some [greeting_past]\<rparr> else s2)
      in if hf_api_key s3 = None then s3\<lparr>hf_api_key := Some None\<rparr> else s3)"

section \<open>Conversation\<close>

text \<open>
  \<^verbatim>\<open>conversation_chat(query, chain, history)\<close>. Its only caller passes the list object held
  under \<^verbatim>\<open>st.session_state['history']\<close>, so \<^verbatim>\<open>history.append\<close> changes the session's list.
  When the chain raises, the append is not reached.
\<close>

definition conversation_chat ::
    "string \<Rightarrow> chain \<Rightarrow> (string \<times> string) list \<Rightarrow> world \<Rightarrow> (error + string) \<times> world" where
  "conversation_chat query chain hist w =
     (let result = chain query hist;
          w1 = log [ChainCall query hist result] w
      in case result of
           Inl e \<Rightarrow> (Inl e, w1)
         | Inr answer \<Rightarrow>
             (Inr answer,
              w1\<lparr>session := (session w1)\<lparr>history := Some (hist @ [(query, answer)])\<rparr>\<rparr>))"

text \<open>
  Lines 41 to 44 of \<^verbatim>\<open>display_chat_history\<close>: the body of the submit branch. The call of
  \<^verbatim>\<open>conversation_chat\<close> is inside \<^verbatim>\<open>with st.spinner\<close>, the appends to \<^verbatim>\<open>past\<close> and
  \<^verbatim>\<open>generated\<close> follow the block. When the answer has arrived and the spinner closes, the
  run may be stopped: the history then has the new pair and the two lists do not. When the
  chain raises, the model returns the chain's exception.
\<close>

definition submit_question ::
    "chain \<Rightarrow> string \<Rightarrow> bool \<Rightarrow> world \<Rightarrow> (error + unit) \<times> world" where
  "submit_question chain question stopped w =
     (case history (session w) of
        None \<Rightarrow> (Inl (KeyError ''history''), w)
      | Some hist \<Rightarrow>
          (case conversation_chat question chain hist w of
             (Inl e, w1) \<Rightarrow> (Inl e, w1)
           | (Inr output, w1) \<Rightarrow>
               (if stopped then (Inl ScriptStopped, w1)
                else
                  (case past (session w1) of
                     None \<Rightarrow> (Inl (KeyError ''past''), w1)
                   | Some p \<Rightarrow>
                       (let w2 = w1\<lparr>session := (session w1)\<lparr>past := Some (p @ [question])\<rparr>\<rparr>
                        in case generated (session w2) of
                             None \<Rightarrow> (Inl (KeyError ''generated''), w2)
                           | Some g \<Rightarrow>
                               (Inr (),
                                w2\<lparr>session :=
                                     (session w2)\<lparr>generated := Some (g @ [output])\<rparr>\<rparr>))))))"

text \<open>
  The rendering loop, lines 48 to 50: for each index of \<^verbatim>\<open>generated\<close> it reads \<^verbatim>\<open>past[i]\<close>,
  which raises IndexError beyond the end of \<^verbatim>\<open>past\<close>, then \<^verbatim>\<open>generated[i]\<close>.
\<close>

fun render_messages ::
    "string list \<Rightarrow> string list \<Rightarrow> nat list \<Rightarrow> world \<Rightarrow> (error + unit) \<times> world" where
  "render_messages p g [] w = (Inr (), w)"
| "render_messages p g (i # is) w =
     (if i < length p then
        (if i < length g then
           render_messages p g is (log [UiMessage (p ! i) True, UiMessage (g ! i) False] w)
         else (Inl IndexError, log [UiMessage (p ! i) True] w))
      else (Inl IndexError, w))"

definition render_replies :: "world \<Rightarrow> (error + unit) \<times> world" where
  "render_replies w =
     (case generated (session w) of
        None \<Rightarrow> (Inl (KeyError ''generated''), w)
      | Some g \<Rightarrow>
          (if g \<noteq> [] then
             (case past (session w) of
                None \<Rightarrow> (Inl (KeyError ''past''), w)
              | Some p \<Rightarrow> render_messages p g [0..<length g] w)
           else (Inr (), w)))"

definition display_chat_history :: "chain \<Rightarrow> ui_input \<Rightarrow> world \<Rightarrow> (error + unit) \<times> world" where
  "display_chat_history chain inp w =
     (let w1 = log [UiForm] w
      in case (if submit_button inp \<and> user_input inp \<noteq> []
               then submit_question chain (user_input inp) (stopped_at_spinner inp) w1
               else (Inr (), w1)) of
           (Inl e, w2) \<Rightarrow> (Inl e, w2)
         | (Inr u, w2) \<Rightarrow> render_replies w2)"

section \<open>Conversational chain\<close>

definition llm_kwargs :: "(string \<times> string) list" where
  "llm_kwargs = [(''temperature'', ''0.01''), (''max_length'', ''500'')]"

text \<open>
  \<^verbatim>\<open>create_conversational_chain(vector_store, hf_api_key)\<close>: two language models are
  constructed, the chain is built from the second one, the vector store's retriever with
  \<open>k = 3\<close> and a fresh buffer memory.
\<close>

definition create_conversational_chain ::
    "('emb, 'vs, 'llm) env \<Rightarrow> 'vs \<Rightarrow> string option \<Rightarrow> world \<Rightarrow> (error + chain) \<times> world" where
  "create_conversational_chain E vector_store key w =
     (let w1 = log [NewLlm ''google/flan-t5-small''] w
      in case HuggingFaceHub E ''google/flan-t5-small'' llm_kwargs key of
           Inl e \<Rightarrow> (Inl e, w1)
         | Inr retriever_llm \<Rightarrow>
             (let w2 = log [NewLlm ''google/flan-t5-large''] w1
              in case HuggingFaceHub E ''google/flan-t5-large'' llm_kwargs key of
                   Inl e \<Rightarrow> (Inl e, w2)
                 | Inr generator_llm \<Rightarrow>
                     (let mem = ConversationBufferMemory ''chat_history'' True;
                          w3 = log [ChainFromLlm] w2
                      in case from_llm E generator_llm ''stuff'' (Retriever vector_store 3) mem of
                           Inl e \<Rightarrow> (Inl e, w3)
                         | Inr chain \<Rightarrow> (Inr chain, w3))))"

text \<open>
  The pipeline the specification names as the real contract: one retrieval index and one
  generation model, with no second model constructed.
\<close>

definition create_single_model_chain ::
    "('emb, 'vs, 'llm) env \<Rightarrow> 'vs \<Rightarrow> string option \<Rightarrow> world \<Rightarrow> (error + chain) \<times> world" where
  "create_single_model_chain E vector_store key w =
     (let w2 = log [NewLlm ''google/flan-t5-large''] w
      in case HuggingFaceHub E ''google/flan-t5-large'' llm_kwargs key of
           Inl e \<Rightarrow> (Inl e, w2)
         | Inr generator_llm \<Rightarrow>
             (let mem = ConversationBufferMemory ''chat_history'' True;
                  w3 = log [ChainFromLlm] w2
              in case from_llm E generator_llm ''stuff'' (Retriever vector_store 3) mem of
                   Inl e \<Rightarrow> (Inl e, w3)
                 | Inr chain \<Rightarrow> (Inr chain, w3)))"

section \<open>Document ingestion\<close>

text \<open>
  \<^verbatim>\<open>os.path.splitext\<close> of Python's standard library on a POSIX system: the extension
  starts at the last dot of the last path component, unless only dots precede it there.
  \<open>rfind\<close> is \<^verbatim>\<open>str.rfind\<close> for a single character, \<open>-1\<close> when it does not occur.
\<close>

fun rfind_from :: "char \<Rightarrow> string \<Rightarrow> int \<Rightarrow> int \<Rightarrow> int" where
  "rfind_from c [] i r = r"
| "rfind_from c (x # xs) i r = rfind_from c xs (i + 1) (if x = c then i else r)"

definition rfind :: "string \<Rightarrow> char \<Rightarrow> int" where
  "rfind p c = rfind_from c p 0 (- 1)"

definition splitext :: "string \<Rightarrow> string \<times> string" where
  "splitext p =
     (let sepIndex = rfind p (CHR ''/'');
          dotIndex = rfind p (CHR ''.'')
      in if dotIndex > sepIndex \<and>
            list_ex (\<lambda>c. c \<noteq> CHR ''.'')
              (take (nat (dotIndex - (sepIndex + 1))) (drop (nat (sepIndex + 1)) p))
         then (take (nat dotIndex) p, drop (nat dotIndex) p)
         else (p, []))"

text \<open>Lines 104 to 110: the loader chosen for an extension, \<open>None\<close> for any other.\<close>

definition select_loader :: "string \<Rightarrow> string \<Rightarrow> loader option" where
  "select_loader file_extension temp_file_path =
     (if file_extension = ''.pdf'' then Some (PyPDFLoader temp_file_path)
      else if file_extension = ''.docx'' \<or> file_extension = ''.doc''
        then Some (Docx2txtLoader temp_file_path)
      else if file_extension = ''.txt'' then Some (TextLoader temp_file_path)
      else None)"

text \<open>
  Lines 100 to 102: a named temporary file is created with \<^verbatim>\<open>delete=False\<close>, the upload
  is written to it, and it stays on disk when the \<^verbatim>\<open>with\<close> block closes it.
\<close>

definition write_temp :: "('emb, 'vs, 'llm) env \<Rightarrow> uploaded_file \<Rightarrow> world \<Rightarrow> world" where
  "write_temp E file w =
     (let temp_file_path = mktemp E (tmpfs w)
      in log [TempWrite temp_file_path]
           (w\<lparr>tmpfs := (tmpfs w)(temp_file_path \<mapsto> file_bytes file)\<rparr>))"

definition os_remove :: "string \<Rightarrow> world \<Rightarrow> (error + unit) \<times> world" where
  "os_remove path w =
     (let w1 = log [OsRemove path] w
      in if tmpfs w path = None then (Inl (FileNotFoundError path), w1)
         else (Inr (), w1\<lparr>tmpfs := (tmpfs w1)(path := None)\<rparr>))"

text \<open>The body of the loop over the uploaded files, lines 99 to 114.\<close>

definition ingest_file ::
    "('emb, 'vs, 'llm) env \<Rightarrow> uploaded_file \<Rightarrow> document list \<Rightarrow> world
      \<Rightarrow> (error + document list) \<times> world" where
  "ingest_file E file text w =
     (let file_extension = snd (splitext (file_name file));
          temp_file_path = mktemp E (tmpfs w);
          w1 = write_temp E file w
      in case select_loader file_extension temp_file_path of
           None \<Rightarrow> (Inr text, w1)
         | Some l \<Rightarrow>
             (let w2 = log [LoaderLoad l] w1
              in case loader_load E l (tmpfs w1) of
                   Inl e \<Rightarrow> (Inl e, w2)
                 | Inr docs \<Rightarrow>
                     (case os_remove temp_file_path w2 of
                        (Inl e, w3) \<Rightarrow> (Inl e, w3)
                      | (Inr u, w3) \<Rightarrow> (Inr (text @ docs), w3))))"

fun ingest_files ::
    "('emb, 'vs, 'llm) env \<Rightarrow> uploaded_file list \<Rightarrow> document list \<Rightarrow> world
      \<Rightarrow> (error + document list) \<times> world" where
  "ingest_files E [] text w = (Inr text, w)"
| "ingest_files E (file # files) text w =
     (case ingest_file E file text w of
        (Inl e, w1) \<Rightarrow> (Inl e, w1)
      | (Inr text1, w1) \<Rightarrow> ingest_files E files text1 w1)"

section \<open>The main operation\<close>

definition text_splitter :: splitter where
  "text_splitter = \<lparr>separator = [CHR 0x0A], chunk_size = 1000, chunk_overlap = 100\<rparr>"

definition embeddings_model :: string where
  "embeddings_model = ''sentence-transformers/all-MiniLM-L6-v2''"

text \<open>Lines 93 to 128 of \<^verbatim>\<open>main\<close>: what runs once a credential is present.\<close>

definition process_documents ::
    "('emb, 'vs, 'llm) env \<Rightarrow> ui_input \<Rightarrow> world \<Rightarrow> (error + unit) \<times> world" where
  "process_documents E inp w =
     (let w1 = log [UiSidebar] w
      in if uploaded_files inp \<noteq> [] then
           (case ingest_files E (uploaded_files inp) [] w1 of
              (Inl e, w2) \<Rightarrow> (Inl e, w2)
            | (Inr text, w2) \<Rightarrow>
                (let w3 = log [SplitDocuments] w2
                 in case split_documents E text_splitter text of
                      Inl e \<Rightarrow> (Inl e, w3)
                    | Inr text_chunks \<Rightarrow>
                        (let w4 = log [NewEmbeddings embeddings_model] w3
                         in case HuggingFaceEmbeddings E embeddings_model [(''device'', ''cpu'')] of
                              Inl e \<Rightarrow> (Inl e, w4)
                            | Inr embeddings \<Rightarrow>
                                (let w5 = log [FaissFromDocuments] w4
                                 in case FAISS_from_documents E text_chunks embeddings of
                                      Inl e \<Rightarrow> (Inl e, w5)
                                    | Inr vector_store \<Rightarrow>
                                        (case hf_api_key (session w5) of
                                           None \<Rightarrow> (Inl (KeyError ''hf_api_key''), w5)
                                         | Some key \<Rightarrow>
                                             (case create_conversational_chain E vector_store key w5 of
                                                (Inl e, w6) \<Rightarrow> (Inl e, w6)
                                              | (Inr chain, w6) \<Rightarrow>
                                                  display_chat_history chain inp w6))))))
         else (Inr (), w1))"

definition main :: "('emb, 'vs, 'llm) env \<Rightarrow> ui_input \<Rightarrow> world \<Rightarrow> (error + unit) \<times> world" where
  "main E inp w0 =
     (let w1 = log [UiTitle] (w0\<lparr>session := initialize_session_state (session w0)\<rparr>)
      in case hf_api_key (session w1) of
           None \<Rightarrow> (Inl (KeyError ''hf_api_key''), w1)
         | Some key \<Rightarrow>
             (if \<not> truthy key then
                (let w2 = log [UiTokenInput] w1;
                     w3 = w2\<lparr>session := (session w2)\<lparr>hf_api_key := Some (Some (token_input inp))\<rparr>\<rparr>
                 in if \<not> truthy (Some (token_input inp)) then (Inr (), log [UiWarning] w3)
                    else process_documents E inp w3)
              else process_documents E inp w1))"

section \<open>Sessions\<close>

text \<open>
  A session starts with an empty session dictionary and is a sequence of runs of the
  script, each with its own widget values and its own behaviour of the collaborators.
  Streamlit keeps the session dictionary as a run left it, also when the run raised.
\<close>

definition new_session :: "(string \<rightharpoonup> string) \<Rightarrow> world" where
  "new_session fs =
     \<lparr>session = \<lparr>history = None, generated = None, past = None, hf_api_key = None\<rparr>,
      tmpfs = fs, trace = []\<rparr>"

fun run_session :: "(('emb, 'vs, 'llm) env \<times> ui_input) list \<Rightarrow> world \<Rightarrow> world" where
  "run_session [] w = w"
| "run_session ((E, inp) # rest) w = run_session rest (snd (main E inp w))"

text \<open>The question and answer of every chain call in a trace that returned, in order.\<close>

fun turns :: "event list \<Rightarrow> (string \<times> string) list" where
  "turns [] = []"
| "turns (ChainCall q h (Inr a) # evs) = (q, a) # turns evs"
| "turns (ev # evs) = turns evs"

fun is_chain_call :: "event \<Rightarrow> bool" where
  "is_chain_call (ChainCall q h r) = True"
| "is_chain_call ev = False"

definition credential_missing :: "session_state \<Rightarrow> bool" where
  "credential_missing s = (case hf_api_key s of None \<Rightarrow> True | Some k \<Rightarrow> \<not> truthy k)"

definition supported_extension :: "string \<Rightarrow> bool" where
  "supported_extension ext = (ext = ''.pdf'' \<or> ext = ''.docx'' \<or> ext = ''.doc'' \<or> ext = ''.txt'')"

section \<open>Invariant and auxiliary predicates\<close>

text \<open>
  The invariant of a session that has run the script at least once: the history holds
  exactly the turns of the trace, \<^verbatim>\<open>past\<close> and \<^verbatim>\<open>generated\<close> have the same length, which
  is at least one (the greeting) and at most the length of the history plus one.
\<close>

definition len_of :: "'a list option \<Rightarrow> nat" where
  "len_of xs = (case xs of None \<Rightarrow> 0 | Some ys \<Rightarrow> length ys)"

definition consistent :: "world \<Rightarrow> bool" where
  "consistent w =
     (history (session w) = Some (turns (trace w)) \<and>
      map_option length (past (session w)) = map_option length (generated (session w)) \<and>
      0 < len_of (generated (session w)) \<and>
      len_of (generated (session w)) \<le> Suc (length (turns (trace w))))"

text \<open>
  A step from \<open>w\<close> to \<open>w'\<close> is quiet when it leaves the session dictionary alone and
  calls no chain.
\<close>

definition quiet :: "world \<Rightarrow> world \<Rightarrow> bool" where
  "quiet w w' =
     (session w' = session w \<and>
      (\<exists>evs. trace w' = trace w @ evs \<and> filter is_chain_call evs = []))"

text \<open>
  \<open>h'\<close> is \<open>h\<close>, or \<open>h\<close> followed by one pair whose question is \<open>q\<close>.
\<close>

definition at_most_one_turn ::
    "string \<Rightarrow> (string \<times> string) list \<Rightarrow> (string \<times> string) list \<Rightarrow> bool" where
  "at_most_one_turn q h h' =
     (h' = h \<or> (take (length h) h' = h \<and> map fst (drop (length h) h') = [q]))"

section \<open>Example collaborators and inputs\<close>

text \<open>
  Concrete collaborators and widget values on which the model is evaluated: a loader that
  returns one document, a splitter that returns its input, a chain that answers, a chain
  whose answer is the earlier questions followed by the new one, and variants in which the
  loader, the chain or the construction of the first language model raises, or in which
  the run is stopped when the spinner closes.
\<close>

definition example_chain :: chain where
  "example_chain q h = Inr ''blue''"

definition echo_chain :: chain where
  "echo_chain q h = Inr (concat (map fst h) @ q)"

definition failing_chain :: chain where
  "failing_chain q h = Inl (LibraryError ''401 Unauthorized'')"

definition example_env :: "(unit, document list, string) env" where
  "example_env =
     \<lparr>mktemp = (\<lambda>fs. ''/tmp/tmp0''),
      loader_load = (\<lambda>l fs. Inr [\<lparr>page_content = ''The sky is blue.'', metadata_source = ''/tmp/tmp0''\<rparr>]),
      split_documents = (\<lambda>sp docs. Inr docs),
      HuggingFaceEmbeddings = (\<lambda>model_name kwargs. Inr ()),
      FAISS_from_documents = (\<lambda>docs emb. Inr docs),
      HuggingFaceHub = (\<lambda>repo_id kwargs token. Inr repo_id),
      from_llm = (\<lambda>llm chain_type r mem. Inr example_chain)\<rparr>"

definition echo_env :: "(unit, document list, string) env" where
  "echo_env = example_env\<lparr>from_llm := (\<lambda>llm chain_type r mem. Inr echo_chain)\<rparr>"

definition retriever_down_env :: "(unit, document list, string) env" where
  "retriever_down_env =
     example_env\<lparr>HuggingFaceHub :=
       (\<lambda>repo_id kwargs token.
          if repo_id = ''google/flan-t5-small'' then Inl (LibraryError ''ConnectionError'')
          else Inr repo_id)\<rparr>"

definition failing_loader_env :: "(unit, document list, string) env" where
  "failing_loader_env = example_env\<lparr>loader_load := (\<lambda>l fs. Inl (LibraryError ''cannot parse''))\<rparr>"

definition example_file :: uploaded_file where
  "example_file = \<lparr>file_name = ''notes.txt'', file_bytes = ''The sky is blue.''\<rparr>"

definition example_pdf :: uploaded_file where
  "example_pdf = \<lparr>file_name = ''report.pdf'', file_bytes = ''%PDF-1.7''\<rparr>"

definition example_csv :: uploaded_file where
  "example_csv = \<lparr>file_name = ''data.csv'', file_bytes = ''a,b''\<rparr>"

definition initialized_world :: world where
  "initialized_world =
     (new_session Map.empty)\<lparr>session := initialize_session_state (session (new_session Map.empty))\<rparr>"

definition example_input :: ui_input where
  "example_input =
     \<lparr>token_input = ''hf_token'', uploaded_files = [example_file], submit_button = True,
      user_input = ''What color is the sky?'', stopped_at_spinner = False\<rparr>"

definition second_input :: ui_input where
  "second_input = example_input\<lparr>user_input := ''Is grass green?''\<rparr>"

definition stopped_input :: ui_input where
  "stopped_input = second_input\<lparr>stopped_at_spinner := True\<rparr>"

section \<open>Unfolding the model\<close>

text \<open>
  The equations that evaluate the model at a concrete input.
\<close>

lemmas model_defs = main_def process_documents_def ingest_file_def write_temp_def os_remove_def
  select_loader_def splitext_def rfind_def create_conversational_chain_def
  create_single_model_chain_def display_chat_history_def
  submit_question_def conversation_chat_def render_replies_def initialize_session_state_def
  new_session_def log_def truthy_def text_splitter_def embeddings_model_def llm_kwargs_def
  supported_extension_def credential_missing_def Let_def

lemmas example_defs = example_env_def failing_loader_env_def echo_env_def retriever_down_env_def
  echo_chain_def second_input_def stopped_input_def example_input_def example_file_def
  example_pdf_def example_csv_def example_chain_def failing_chain_def initialized_world_def

section \<open>Traces and rendering\<close>

lemma log_sel [simp]:
  "session (log evs w) = session w"
  "tmpfs (log evs w) = tmpfs w"
  "trace (log evs w) = trace w @ evs"
  by (simp_all add: log_def)

lemma len_of_simps [simp]:
  "len_of None = 0"
  "len_of (Some xs) = length xs"
  by (simp_all add: len_of_def)

lemma turns_append: "turns (xs @ ys) = turns xs @ turns ys"
  by (induction xs rule: turns.induct) simp_all

lemma turns_no_calls: "filter is_chain_call evs = [] \<Longrightarrow> turns evs = []"
  by (induction evs rule: turns.induct) (simp_all split: if_splits)

lemma turns_prefix: "prefix xs ys \<Longrightarrow> prefix (turns xs) (turns ys)"
  by (auto simp: prefix_def turns_append)

lemma render_messages_session [simp]:
  "session (snd (render_messages p g is w)) = session w"
  by (induction "is" arbitrary: w) simp_all

lemma render_messages_tmpfs [simp]:
  "tmpfs (snd (render_messages p g is w)) = tmpfs w"
  by (induction "is" arbitrary: w) simp_all

lemma render_messages_trace:
  "\<exists>evs. trace (snd (render_messages p g is w)) = trace w @ evs \<and> filter is_chain_call evs = []"
proof (induction "is" arbitrary: w)
  case Nil
  then show ?case by simp
next
  case (Cons i "is")
  show ?case
  proof (cases "i < length p \<and> i < length g")
    case True
    from Cons.IH [of "log [UiMessage (p ! i) True, UiMessage (g ! i) False] w"]
    obtain evs where
      "trace (snd (render_messages p g is (log [UiMessage (p ! i) True, UiMessage (g ! i) False] w)))
         = trace (log [UiMessage (p ! i) True, UiMessage (g ! i) False] w) @ evs"
      and "filter is_chain_call evs = []"
      by blast
    with True show ?thesis by simp
  next
    case False
    then show ?thesis by auto
  qed
qed

lemma log_log: "log evs' (log evs w) = log (evs @ evs') w"
  by (simp add: log_def)

lemma log_Nil: "log [] w = w"
  by (simp add: log_def)

text \<open>With lists of equal length the loop shows the pairs of the two lists in order.\<close>

lemma render_messages_pairs:
  assumes "length p = length g"
  shows "i \<le> length g \<Longrightarrow>
         render_messages p g [i..<length g] w =
           (Inr (),
            log (concat (map (\<lambda>(x, y). [UiMessage x True, UiMessage y False]) (drop i (zip p g)))) w)"
proof (induction "length g - i" arbitrary: i w)
  case 0
  then show ?case by (simp add: log_Nil)
next
  case (Suc n)
  then have i: "i < length g" by simp
  have upt: "[i..<length g] = i # [Suc i..<length g]"
    using i by (simp add: upt_conv_Cons)
  have dr: "drop i (zip p g) = (p ! i, g ! i) # drop (Suc i) (zip p g)"
    using i assms by (simp add: Cons_nth_drop_Suc [symmetric])
  have "n = length g - Suc i" using Suc.hyps(2) by simp
  then have IH: "render_messages p g [Suc i..<length g] v =
           (Inr (),
            log (concat (map (\<lambda>(x, y). [UiMessage x True, UiMessage y False])
                   (drop (Suc i) (zip p g)))) v)" for v
    using Suc.hyps(1) [of "Suc i" v] i by simp
  show ?case
    using i assms by (simp add: upt dr IH log_log del: upt_Suc)
qed

lemma render_replies_session [simp]: "session (snd (render_replies w)) = session w"
  by (simp add: render_replies_def split: option.splits)

lemma render_replies_tmpfs [simp]: "tmpfs (snd (render_replies w)) = tmpfs w"
  by (simp add: render_replies_def split: option.splits)

lemma render_replies_trace:
  "\<exists>evs. trace (snd (render_replies w)) = trace w @ evs \<and> filter is_chain_call evs = []"
  using render_messages_trace by (simp add: render_replies_def split: option.splits)

lemma render_replies_prefix: "prefix (trace w) (trace (snd (render_replies w)))"
  using render_replies_trace [of w] by (auto simp: prefix_def)

section \<open>Quiet steps\<close>

text \<open>
  Ingestion and the construction of the chain change neither the session dictionary nor
  the turns of the trace.
\<close>

lemma quiet_refl: "quiet w w"
  by (simp add: quiet_def)

lemma quiet_trans: "quiet w w1 \<Longrightarrow> quiet w1 w2 \<Longrightarrow> quiet w w2"
  by (auto simp: quiet_def)

lemma quiet_log: "filter is_chain_call evs = [] \<Longrightarrow> quiet w (log evs w)"
  by (simp add: quiet_def)

lemma quiet_consistent: "quiet w w' \<Longrightarrow> consistent w' = consistent w"
  by (auto simp: quiet_def consistent_def turns_append turns_no_calls)

lemma quiet_prefix: "quiet w w' \<Longrightarrow> prefix (trace w) (trace w')"
  by (auto simp: quiet_def)

lemma quiet_turns: "quiet w w' \<Longrightarrow> turns (trace w') = turns (trace w)"
  by (auto simp: quiet_def turns_append turns_no_calls)

lemma write_temp_quiet: "quiet w (write_temp E file w)"
  by (simp add: write_temp_def Let_def quiet_def)

lemma os_remove_quiet: "quiet w (snd (os_remove path w))"
  by (simp add: os_remove_def Let_def quiet_def)

lemma ingest_file_quiet: "quiet w (snd (ingest_file E file text w))"
proof -
  let ?p = "mktemp E (tmpfs w)"
  let ?w1 = "write_temp E file w"
  have q1: "quiet w ?w1" by (rule write_temp_quiet)
  show ?thesis
  proof (cases "select_loader (snd (splitext (file_name file))) ?p")
    case None
    with q1 show ?thesis by (simp add: ingest_file_def Let_def)
  next
    case (Some l)
    let ?w2 = "log [LoaderLoad l] ?w1"
    have q2: "quiet w ?w2"
      using q1 by (rule quiet_trans) (simp add: quiet_log)
    show ?thesis
    proof (cases "loader_load E l (tmpfs ?w1)")
      case (Inl e)
      with Some q2 show ?thesis by (simp add: ingest_file_def Let_def)
    next
      case (Inr docs)
      have "quiet w (snd (os_remove ?p ?w2))"
        using q2 os_remove_quiet by (rule quiet_trans)
      with Some Inr show ?thesis
        by (auto simp: ingest_file_def Let_def split: prod.splits sum.splits)
    qed
  qed
qed

lemma ingest_files_quiet: "quiet w (snd (ingest_files E files text w))"
proof (induction files arbitrary: "text" w)
  case Nil
  show ?case by (simp add: quiet_refl)
next
  case (Cons f files)
  obtain r w1 where step: "ingest_file E f text w = (r, w1)"
    by (cases "ingest_file E f text w")
  have q1: "quiet w w1"
    using ingest_file_quiet [of w E f "text"] step by simp
  show ?case
  proof (cases r)
    case (Inl e)
    with step q1 show ?thesis by simp
  next
    case (Inr text1)
    have "quiet w (snd (ingest_files E files text1 w1))"
      using q1 Cons.IH by (rule quiet_trans)
    with step Inr show ?thesis by simp
  qed
qed

lemma create_conversational_chain_quiet:
  "quiet w (snd (create_conversational_chain E vector_store key w))"
  by (simp add: create_conversational_chain_def Let_def quiet_def split: sum.splits)

section \<open>The invariant along a run\<close>

text \<open>
  Every function of the script keeps the invariant, only extends the trace, and adds at
  most one turn, asked with the question of the run.
\<close>

lemma consistent_cong:
  "history (session w') = history (session w) \<Longrightarrow> generated (session w') = generated (session w)
   \<Longrightarrow> past (session w') = past (session w) \<Longrightarrow> turns (trace w') = turns (trace w)
   \<Longrightarrow> consistent w' = consistent w"
  by (simp add: consistent_def)

lemma log_consistent: "filter is_chain_call evs = [] \<Longrightarrow> consistent (log evs w) = consistent w"
  by (simp add: consistent_def turns_append turns_no_calls)

lemma render_replies_consistent: "consistent (snd (render_replies w)) = consistent w"
proof -
  obtain evs where "trace (snd (render_replies w)) = trace w @ evs" "filter is_chain_call evs = []"
    using render_replies_trace by blast
  then have "turns (trace (snd (render_replies w))) = turns (trace w)"
    by (simp add: turns_append turns_no_calls)
  then show ?thesis by (intro consistent_cong) simp_all
qed

lemma submit_question_consistent:
  "consistent w \<Longrightarrow> consistent (snd (submit_question chain q st w))"
  by (auto simp: consistent_def submit_question_def conversation_chat_def Let_def turns_append
           split: option.splits sum.splits)

lemma submit_question_prefix:
  "prefix (trace w) (trace (snd (submit_question chain q st w)))"
  by (auto simp: submit_question_def conversation_chat_def Let_def
           split: option.splits sum.splits)

lemma submit_question_turns:
  "at_most_one_turn q (turns (trace w)) (turns (trace (snd (submit_question chain q st w))))"
  by (auto simp: at_most_one_turn_def submit_question_def conversation_chat_def Let_def
                 turns_append split: option.splits sum.splits)

lemma display_no_submit:
  "\<not> (submit_button inp \<and> user_input inp \<noteq> [])
   \<Longrightarrow> display_chat_history chain inp w = render_replies (log [UiForm] w)"
  by (auto simp: display_chat_history_def Let_def)

lemma display_submit:
  "submit_button inp \<and> user_input inp \<noteq> []
   \<Longrightarrow> display_chat_history chain inp w =
       (case submit_question chain (user_input inp) (stopped_at_spinner inp) (log [UiForm] w) of
          (Inl e, w2) \<Rightarrow> (Inl e, w2)
        | (Inr u, w2) \<Rightarrow> render_replies w2)"
  by (simp add: display_chat_history_def Let_def)

lemma display_chat_history_consistent:
  assumes c: "consistent w"
  shows "consistent (snd (display_chat_history chain inp w))"
proof (cases "submit_button inp \<and> user_input inp \<noteq> []")
  case True
  have "consistent (snd (submit_question chain (user_input inp) (stopped_at_spinner inp) (log [UiForm] w)))"
    using c by (intro submit_question_consistent) (simp add: log_consistent)
  then show ?thesis
    by (auto simp: display_submit [OF True] render_replies_consistent
             split: prod.splits sum.splits)
next
  case False
  then show ?thesis
    using c by (simp add: display_no_submit render_replies_consistent log_consistent)
qed

lemma display_chat_history_prefix:
  "prefix (trace w) (trace (snd (display_chat_history chain inp w)))"
proof (cases "submit_button inp \<and> user_input inp \<noteq> []")
  case True
  obtain r w2 where sq: "submit_question chain (user_input inp) (stopped_at_spinner inp) (log [UiForm] w) = (r, w2)"
    by (cases "submit_question chain (user_input inp) (stopped_at_spinner inp) (log [UiForm] w)")
  have "prefix (trace (log [UiForm] w)) (trace w2)"
    using submit_question_prefix [of "log [UiForm] w" chain "user_input inp" "stopped_at_spinner inp"] sq by simp
  then have p2: "prefix (trace w) (trace w2)"
    by (auto simp: prefix_def)
  have "prefix (trace w2) (trace (snd (render_replies w2)))"
    by (rule render_replies_prefix)
  with p2 have "prefix (trace w) (trace (snd (render_replies w2)))"
    by (rule prefix_order.trans)
  with p2 sq show ?thesis
    by (cases r) (simp_all add: display_submit [OF True])
next
  case False
  have "prefix (trace (log [UiForm] w)) (trace (snd (render_replies (log [UiForm] w))))"
    by (rule render_replies_prefix)
  then have "prefix (trace w) (trace (snd (render_replies (log [UiForm] w))))"
    by (auto simp: prefix_def)
  then show ?thesis by (simp add: display_no_submit [OF False])
qed

lemma display_chat_history_turns:
  "at_most_one_turn (user_input inp) (turns (trace w))
     (turns (trace (snd (display_chat_history chain inp w))))"
proof -
  have rr: "turns (trace (snd (render_replies v))) = turns (trace v)" for v
    using render_replies_trace [of v] by (auto simp: turns_append turns_no_calls)
  show ?thesis
  proof (cases "submit_button inp \<and> user_input inp \<noteq> []")
    case True
    have "at_most_one_turn (user_input inp) (turns (trace (log [UiForm] w)))
            (turns (trace (snd (submit_question chain (user_input inp) (stopped_at_spinner inp) (log [UiForm] w)))))"
      by (rule submit_question_turns)
    then show ?thesis
      by (auto simp: display_submit [OF True] rr turns_append split: prod.splits sum.splits)
  next
    case False
    then show ?thesis
      by (simp add: display_no_submit rr turns_append at_most_one_turn_def)
  qed
qed

lemma process_documents_shape:
  "quiet w (snd (process_documents E inp w)) \<or>
   (\<exists>chain w6. quiet w w6 \<and> process_documents E inp w = display_chat_history chain inp w6)"
proof (cases "uploaded_files inp = []")
  case True
  then show ?thesis by (simp add: process_documents_def Let_def quiet_log)
next
  case False
  let ?w1 = "log [UiSidebar] w"
  obtain r w2 where ing: "ingest_files E (uploaded_files inp) [] ?w1 = (r, w2)"
    by (cases "ingest_files E (uploaded_files inp) [] ?w1")
  have "quiet ?w1 w2"
    using ingest_files_quiet [of ?w1 E "uploaded_files inp" "[]"] ing by simp
  then have q2: "quiet w w2"
    by (intro quiet_trans [of w ?w1 w2]) (simp_all add: quiet_log)
  show ?thesis
  proof (cases r)
    case (Inl e)
    with False ing q2 show ?thesis by (simp add: process_documents_def Let_def)
  next
    case (Inr docs)
    let ?w3 = "log [SplitDocuments] w2"
    let ?w4 = "log [NewEmbeddings embeddings_model] ?w3"
    let ?w5 = "log [FaissFromDocuments] ?w4"
    have q3: "quiet w ?w3"
      using q2 by (rule quiet_trans) (simp add: quiet_log)
    have q4: "quiet w ?w4"
      using q3 by (rule quiet_trans) (simp add: quiet_log)
    have q5: "quiet w ?w5"
      using q4 by (rule quiet_trans) (simp add: quiet_log)
    have q6: "quiet w (snd (create_conversational_chain E vs key ?w5))" for vs key
      using q5 create_conversational_chain_quiet by (rule quiet_trans)
    show ?thesis
    proof (cases "split_documents E text_splitter docs")
      case (Inl e)
      with False ing Inr q3 show ?thesis by (simp add: process_documents_def Let_def)
    next
      case chunks: (Inr text_chunks)
      show ?thesis
      proof (cases "HuggingFaceEmbeddings E embeddings_model [(''device'', ''cpu'')]")
        case (Inl e)
        with False ing Inr chunks q4 show ?thesis by (simp add: process_documents_def Let_def)
      next
        case emb: (Inr embeddings)
        show ?thesis
        proof (cases "FAISS_from_documents E text_chunks embeddings")
          case (Inl e)
          with False ing Inr chunks emb q5 show ?thesis
            by (simp add: process_documents_def Let_def)
        next
          case vs: (Inr vector_store)
          show ?thesis
          proof (cases "hf_api_key (session ?w5)")
            case None
            with False ing Inr chunks emb vs q5 show ?thesis
              by (simp add: process_documents_def Let_def)
          next
            case (Some key)
            obtain rc w6 where cc: "create_conversational_chain E vector_store key ?w5 = (rc, w6)"
              by (cases "create_conversational_chain E vector_store key ?w5")
            have q: "quiet w w6" using q6 [of vector_store key] cc by simp
            show ?thesis
            proof (cases rc)
              case (Inl e)
              with False ing Inr chunks emb vs Some cc q show ?thesis
                by (simp add: process_documents_def Let_def)
            next
              case ch: (Inr chain)
              have "process_documents E inp w = display_chat_history chain inp w6"
                using False ing Inr chunks emb vs Some cc ch
                by (simp add: process_documents_def Let_def)
              with q show ?thesis by blast
            qed
          qed
        qed
      qed
    qed
  qed
qed

lemma process_documents_consistent:
  assumes "consistent w"
  shows "consistent (snd (process_documents E inp w))"
proof -
  from process_documents_shape [of w E inp] show ?thesis
  proof
    assume "quiet w (snd (process_documents E inp w))"
    with assms show ?thesis by (simp add: quiet_consistent)
  next
    assume "\<exists>chain w6. quiet w w6 \<and> process_documents E inp w = display_chat_history chain inp w6"
    then obtain chain w6 where q: "quiet w w6"
      and eq: "process_documents E inp w = display_chat_history chain inp w6"
      by blast
    from q assms have "consistent w6" by (simp add: quiet_consistent)
    then show ?thesis unfolding eq by (rule display_chat_history_consistent)
  qed
qed

lemma process_documents_prefix:
  "prefix (trace w) (trace (snd (process_documents E inp w)))"
proof -
  from process_documents_shape [of w E inp] show ?thesis
  proof
    assume "quiet w (snd (process_documents E inp w))"
    then show ?thesis by (rule quiet_prefix)
  next
    assume "\<exists>chain w6. quiet w w6 \<and> process_documents E inp w = display_chat_history chain inp w6"
    then obtain chain w6 where q: "quiet w w6"
      and eq: "process_documents E inp w = display_chat_history chain inp w6"
      by blast
    have "prefix (trace w) (trace w6)" using q by (rule quiet_prefix)
    moreover have "prefix (trace w6) (trace (snd (display_chat_history chain inp w6)))"
      by (rule display_chat_history_prefix)
    ultimately show ?thesis unfolding eq by (rule prefix_order.trans)
  qed
qed

lemma process_documents_turns:
  "at_most_one_turn (user_input inp) (turns (trace w))
     (turns (trace (snd (process_documents E inp w))))"
proof -
  from process_documents_shape [of w E inp] show ?thesis
  proof
    assume "quiet w (snd (process_documents E inp w))"
    then show ?thesis by (simp add: quiet_turns at_most_one_turn_def)
  next
    assume "\<exists>chain w6. quiet w w6 \<and> process_documents E inp w = display_chat_history chain inp w6"
    then obtain chain w6 where q: "quiet w w6"
      and eq: "process_documents E inp w = display_chat_history chain inp w6"
      by blast
    show ?thesis
      using display_chat_history_turns [of inp w6 chain] by (simp add: eq quiet_turns [OF q])
  qed
qed

lemma main_shape:
  "(\<exists>w1. main E inp w = process_documents E inp w1 \<and>
         history (session w1) = history (initialize_session_state (session w)) \<and>
         generated (session w1) = generated (initialize_session_state (session w)) \<and>
         past (session w1) = past (initialize_session_state (session w)) \<and>
         tmpfs w1 = tmpfs w \<and>
         (\<exists>evs. trace w1 = trace w @ evs \<and> filter is_chain_call evs = [])) \<or>
   (\<exists>w1. snd (main E inp w) = w1 \<and>
         history (session w1) = history (initialize_session_state (session w)) \<and>
         generated (session w1) = generated (initialize_session_state (session w)) \<and>
         past (session w1) = past (initialize_session_state (session w)) \<and>
         tmpfs w1 = tmpfs w \<and>
         (\<exists>evs. trace w1 = trace w @ evs \<and> filter is_chain_call evs = []))"
  by (auto simp: main_def Let_def split: option.splits)

lemma main_consistent:
  assumes "consistent (w\<lparr>session := initialize_session_state (session w)\<rparr>)"
  shows "consistent (snd (main E inp w))"
proof -
  have keep: "consistent w1"
    if "history (session w1) = history (initialize_session_state (session w))"
      and "generated (session w1) = generated (initialize_session_state (session w))"
      and "past (session w1) = past (initialize_session_state (session w))"
      and "trace w1 = trace w @ evs" and "filter is_chain_call evs = []" for w1 evs
    using assms that by (simp add: consistent_def turns_append turns_no_calls)
  from main_shape [of E inp w] show ?thesis
  proof (elim disjE exE conjE)
    fix w1 evs
    assume "main E inp w = process_documents E inp w1"
      and "history (session w1) = history (initialize_session_state (session w))"
      and "generated (session w1) = generated (initialize_session_state (session w))"
      and "past (session w1) = past (initialize_session_state (session w))"
      and "trace w1 = trace w @ evs" and "filter is_chain_call evs = []"
    then show ?thesis
      using keep [of w1 evs] by (simp add: process_documents_consistent)
  next
    fix w1 evs
    assume "snd (main E inp w) = w1"
      and "history (session w1) = history (initialize_session_state (session w))"
      and "generated (session w1) = generated (initialize_session_state (session w))"
      and "past (session w1) = past (initialize_session_state (session w))"
      and "trace w1 = trace w @ evs" and "filter is_chain_call evs = []"
    then show ?thesis
      using keep [of w1 evs] by simp
  qed
qed

lemma main_prefix: "prefix (trace w) (trace (snd (main E inp w)))"
proof -
  from main_shape [of E inp w] show ?thesis
  proof (elim disjE exE conjE)
    fix w1 evs
    assume eq: "main E inp w = process_documents E inp w1" and "trace w1 = trace w @ evs"
    then have "prefix (trace w) (trace w1)" by simp
    moreover have "prefix (trace w1) (trace (snd (process_documents E inp w1)))"
      by (rule process_documents_prefix)
    ultimately show ?thesis unfolding eq by (rule prefix_order.trans)
  next
    fix w1 evs
    assume "snd (main E inp w) = w1" and "trace w1 = trace w @ evs"
    then show ?thesis by simp
  qed
qed

lemma main_turns:
  "at_most_one_turn (user_input inp) (turns (trace w)) (turns (trace (snd (main E inp w))))"
proof -
  from main_shape [of E inp w] show ?thesis
  proof (elim disjE exE conjE)
    fix w1 evs
    assume eq: "main E inp w = process_documents E inp w1"
      and "trace w1 = trace w @ evs" and "filter is_chain_call evs = []"
    then have "turns (trace w1) = turns (trace w)"
      by (simp add: turns_append turns_no_calls)
    then show ?thesis
      using process_documents_turns [of inp w1 E] by (simp add: eq)
  next
    fix w1 evs
    assume "snd (main E inp w) = w1"
      and "trace w1 = trace w @ evs" and "filter is_chain_call evs = []"
    then show ?thesis
      by (simp add: turns_append turns_no_calls at_most_one_turn_def)
  qed
qed

section \<open>The invariant along a session\<close>

lemma initialize_consistent:
  "consistent w \<Longrightarrow> consistent (w\<lparr>session := initialize_session_state (session w)\<rparr>)"
  by (auto simp: consistent_def initialize_session_state_def Let_def)

lemma initialize_new_session:
  "consistent ((new_session fs)\<lparr>session := initialize_session_state (session (new_session fs))\<rparr>)"
  by (simp add: consistent_def initialize_session_state_def new_session_def Let_def)

lemma initialize_hf_api_key:
  "hf_api_key (initialize_session_state s) =
     (case hf_api_key s of None \<Rightarrow> Some None | Some k \<Rightarrow> Some k)"
  by (simp add: initialize_session_state_def Let_def split: option.splits)

lemma run_session_consistent: "consistent w \<Longrightarrow> consistent (run_session steps w)"
proof (induction steps arbitrary: w)
  case Nil
  then show ?case by simp
next
  case (Cons step steps)
  obtain E inp where step: "step = (E, inp)" by (cases step)
  have "consistent (snd (main E inp w))"
    using Cons.prems by (intro main_consistent initialize_consistent)
  then show ?case using Cons.IH step by simp
qed

lemma run_session_started:
  "steps \<noteq> [] \<Longrightarrow> consistent (run_session steps (new_session fs))"
proof (cases steps)
  case Nil
  assume "steps \<noteq> []"
  with Nil show ?thesis by simp
next
  case (Cons step rest)
  obtain E inp where step: "step = (E, inp)" by (cases step)
  have "consistent (snd (main E inp (new_session fs)))"
    by (intro main_consistent initialize_new_session)
  then show ?thesis using Cons step by (simp add: run_session_consistent)
qed

lemma session_lists_aligned:
  assumes "steps \<noteq> []"
  shows "\<exists>h g p. history (session (run_session steps (new_session fs))) = Some h \<and>
                 generated (session (run_session steps (new_session fs))) = Some g \<and>
                 past (session (run_session steps (new_session fs))) = Some p \<and>
                 length p = length g \<and> 0 < length g \<and> length g \<le> length h + 1 \<and>
                 render_replies (run_session steps (new_session fs)) =
                   (Inr (),
                    log (concat (map (\<lambda>(x, y). [UiMessage x True, UiMessage y False]) (zip p g)))
                      (run_session steps (new_session fs)))"
proof -
  let ?w = "run_session steps (new_session fs)"
  have c: "consistent ?w" using assms by (rule run_session_started)
  then obtain g p where g: "generated (session ?w) = Some g" and p: "past (session ?w) = Some p"
    and len: "length p = length g" "0 < length g" "length g \<le> Suc (length (turns (trace ?w)))"
    by (cases "generated (session ?w)"; cases "past (session ?w)") (auto simp: consistent_def)
  have "render_replies ?w =
          (Inr (), log (concat (map (\<lambda>(x, y). [UiMessage x True, UiMessage y False]) (zip p g))) ?w)"
    using len(2) render_messages_pairs [OF len(1), of 0 ?w]
    by (simp add: render_replies_def g p)
  with c g p len show ?thesis by (simp add: consistent_def)
qed

lemma run_session_prefix: "prefix (trace w) (trace (run_session steps w))"
proof (induction steps arbitrary: w)
  case Nil
  show ?case by simp
next
  case (Cons step steps)
  obtain E inp where step: "step = (E, inp)" by (cases step)
  have "prefix (trace w) (trace (snd (main E inp w)))" by (rule main_prefix)
  moreover have "prefix (trace (snd (main E inp w))) (trace (run_session steps (snd (main E inp w))))"
    by (rule Cons.IH)
  ultimately show ?case unfolding step by (simp only: run_session.simps prefix_order.trans)
qed

lemma run_session_append: "run_session (xs @ ys) w = run_session ys (run_session xs w)"
  by (induction xs arbitrary: w) auto

section \<open>Ingestion\<close>



section \<open>Temporary files\<close>

text \<open>
  Claim C1: the temporary file written for an uploaded file is removed on every exit
  path of the step for that file, whether or not the extension is supported and whether
  or not parsing raises. The script reaches \<^verbatim>\<open>os.remove\<close> only under \<^verbatim>\<open>if loader:\<close> and only
  after \<^verbatim>\<open>loader.load()\<close> has returned, so the file is left on disk on the two other
  paths. Evaluated on a PDF upload whose loader raises, the step ends with the loader's
  exception and the temporary file still holds the upload; evaluated on a CSV upload, the
  step returns normally, without any document, and the temporary file still holds the
  upload.
\<close>

theorem temp_file_left_on_disk:
  "fst (ingest_file failing_loader_env example_pdf [] (new_session Map.empty))
     = Inl (LibraryError ''cannot parse'') \<and>
   mktemp failing_loader_env (tmpfs (new_session Map.empty)) = ''/tmp/tmp0'' \<and>
   tmpfs (snd (ingest_file failing_loader_env example_pdf [] (new_session Map.empty))) ''/tmp/tmp0''
     = Some ''%PDF-1.7'' \<and>
   fst (ingest_file example_env example_csv [] (new_session Map.empty)) = Inr [] \<and>
   mktemp example_env (tmpfs (new_session Map.empty)) = ''/tmp/tmp0'' \<and>
   tmpfs (snd (ingest_file example_env example_csv [] (new_session Map.empty))) ''/tmp/tmp0''
     = Some ''a,b''"
  by (simp add: model_defs example_defs)

section \<open>A failed turn\<close>

text \<open>
  Claim C2: when the chain raises on the question of a turn, the exception leaves
  \<^verbatim>\<open>conversation_chat\<close> and \<^verbatim>\<open>display_chat_history\<close>, and the session dictionary is as it
  was before the turn: no pair is appended to the history, and \<^verbatim>\<open>past\<close> and
  \<^verbatim>\<open>generated\<close> keep their length.
\<close>

theorem failed_generation_keeps_history:
  assumes "chain query hist = Inl e"
    and "history (session w) = Some hist"
    and "submit_button inp" and "user_input inp = query" and "query \<noteq> []"
  shows "fst (conversation_chat query chain hist w) = Inl e \<and>
         session (snd (conversation_chat query chain hist w)) = session w \<and>
         fst (display_chat_history chain inp w) = Inl e \<and>
         session (snd (display_chat_history chain inp w)) = session w"
  using assms
  by (simp add: display_chat_history_def submit_question_def conversation_chat_def Let_def)

theorem failed_generation_keeps_history_witness:
  "failing_chain ''What color is the sky?'' [] = Inl (LibraryError ''401 Unauthorized'') \<and>
   history (session initialized_world) = Some [] \<and>
   submit_button example_input \<and> user_input example_input = ''What color is the sky?'' \<and>
   fst (display_chat_history failing_chain example_input initialized_world)
     = Inl (LibraryError ''401 Unauthorized'') \<and>
   session (snd (display_chat_history failing_chain example_input initialized_world))
     = \<lparr>history = Some [], generated = Some [greeting_generated], past = Some [greeting_past],
        hf_api_key = Some None\<rparr>"
  using failed_generation_keeps_history
    [of failing_chain "''What color is the sky?''" "[]" "LibraryError ''401 Unauthorized''"
        initialized_world example_input]
  by (simp add: model_defs example_defs)

section \<open>Unsupported extensions\<close>



section \<open>The history of a session\<close>

text \<open>
  Claim C5: after \<open>N\<close> successful question turns the history has length \<open>N\<close>, its entries
  are the (question, answer) pairs of those turns in submission order, and it is
  append-only.

  A turn: when the chain, called with the question \<open>q\<close> and the history \<open>hist\<close> of the
  session, returns the answer \<open>a\<close>, then \<^verbatim>\<open>conversation_chat\<close> returns \<open>a\<close>, the history
  becomes \<open>hist @ [(q, a)]\<close>, and the trace gets the turn \<open>(q, a)\<close>; \<^verbatim>\<open>past\<close> and
  \<^verbatim>\<open>generated\<close> get \<open>q\<close> and \<open>a\<close> unless the run is stopped when the spinner closes.

  A session: once the script has run, the history is exactly the list of the turns of
  the trace, in the order of the calls, so its length is their number. Running the script
  further only appends: the history after \<open>steps\<close> is a prefix of the history after
  \<open>steps @ later\<close>, and one more run appends nothing or one pair, whose question is the
  question submitted in that run.
\<close>

theorem history_is_successful_turns:
  assumes "steps \<noteq> []"
    and "chain q hist = Inr a"
    and "history (session w) = Some hist"
    and "past (session w) = Some p"
    and "generated (session w) = Some g"
    and "submit_button inp" and "user_input inp = q" and "q \<noteq> []"
  shows "history (session (run_session steps (new_session fs)))
           = Some (turns (trace (run_session steps (new_session fs)))) \<and>
         history (session (run_session (steps @ later) (new_session fs)))
           = Some (turns (trace (run_session (steps @ later) (new_session fs)))) \<and>
         prefix (turns (trace (run_session steps (new_session fs))))
           (turns (trace (run_session (steps @ later) (new_session fs)))) \<and>
         at_most_one_turn (user_input next_inp)
           (turns (trace (run_session steps (new_session fs))))
           (turns (trace (run_session (steps @ [(E, next_inp)]) (new_session fs)))) \<and>
         conversation_chat q chain hist w =
           (Inr a,
            (log [ChainCall q hist (Inr a)] w)
              \<lparr>session := (session w)\<lparr>history := Some (hist @ [(q, a)])\<rparr>\<rparr>) \<and>
         session (snd (display_chat_history chain inp w)) =
           (if stopped_at_spinner inp
            then (session w)\<lparr>history := Some (hist @ [(q, a)])\<rparr>
            else (session w)\<lparr>history := Some (hist @ [(q, a)]), past := Some (p @ [q]),
                              generated := Some (g @ [a])\<rparr>) \<and>
         turns (trace (snd (display_chat_history chain inp w))) = turns (trace w) @ [(q, a)]"
proof -
  let ?w = "run_session steps (new_session fs)"
  have a: "history (session ?w) = Some (turns (trace ?w))"
    using run_session_started [OF assms(1), of fs] by (simp add: consistent_def)
  have "steps @ later \<noteq> []" using assms(1) by simp
  then have b: "history (session (run_session (steps @ later) (new_session fs)))
                  = Some (turns (trace (run_session (steps @ later) (new_session fs))))"
    using run_session_started [of "steps @ later" fs] by (simp add: consistent_def)
  have c: "prefix (turns (trace ?w)) (turns (trace (run_session (steps @ later) (new_session fs))))"
    unfolding run_session_append by (intro turns_prefix run_session_prefix)
  have d: "at_most_one_turn (user_input next_inp) (turns (trace ?w))
             (turns (trace (run_session (steps @ [(E, next_inp)]) (new_session fs))))"
    unfolding run_session_append using main_turns [of next_inp ?w E] by simp
  have e: "conversation_chat q chain hist w =
           (Inr a,
            (log [ChainCall q hist (Inr a)] w)
              \<lparr>session := (session w)\<lparr>history := Some (hist @ [(q, a)])\<rparr>\<rparr>)"
    using assms(2) by (simp add: conversation_chat_def Let_def)
  have sub: "submit_button inp \<and> user_input inp \<noteq> []"
    using assms(6,7,8) by simp
  have chat: "conversation_chat q chain hist (log [UiForm] w) =
           (Inr a,
            (log [ChainCall q hist (Inr a)] (log [UiForm] w))
              \<lparr>session := (session w)\<lparr>history := Some (hist @ [(q, a)])\<rparr>\<rparr>)"
    using assms(2) by (simp add: conversation_chat_def Let_def)
  have f: "session (snd (display_chat_history chain inp w)) =
           (if stopped_at_spinner inp
            then (session w)\<lparr>history := Some (hist @ [(q, a)])\<rparr>
            else (session w)\<lparr>history := Some (hist @ [(q, a)]), past := Some (p @ [q]),
                              generated := Some (g @ [a])\<rparr>)"
    using assms(3,4,5,7) chat
    by (simp add: display_submit [OF sub] submit_question_def Let_def)
  have rr: "turns (trace (snd (render_replies v))) = turns (trace v)" for v
    using render_replies_trace [of v] by (auto simp: turns_append turns_no_calls)
  have g: "turns (trace (snd (display_chat_history chain inp w))) = turns (trace w) @ [(q, a)]"
    using assms(3,4,5,7) chat
    by (simp add: display_submit [OF sub] submit_question_def Let_def rr turns_append)
  from a b c d e f g show ?thesis by blast
qed

theorem history_is_successful_turns_witness:
  "[(echo_env, example_input)] \<noteq> [] \<and>
   echo_chain ''Is grass green?'' [(''What color is the sky?'', ''What color is the sky?'')]
     = Inr ''What color is the sky?Is grass green?'' \<and>
   history (session (run_session [(echo_env, example_input)] (new_session Map.empty)))
     = Some [(''What color is the sky?'', ''What color is the sky?'')] \<and>
   past (session (run_session [(echo_env, example_input)] (new_session Map.empty)))
     = Some [greeting_past, ''What color is the sky?''] \<and>
   generated (session (run_session [(echo_env, example_input)] (new_session Map.empty)))
     = Some [greeting_generated, ''What color is the sky?''] \<and>
   submit_button second_input \<and> user_input second_input = ''Is grass green?'' \<and>
   ''Is grass green?'' \<noteq> [] \<and>
   history (session (run_session ([(echo_env, example_input)] @ [(echo_env, second_input)])
                       (new_session Map.empty)))
     = Some [(''What color is the sky?'', ''What color is the sky?''),
             (''Is grass green?'', ''What color is the sky?Is grass green?'')] \<and>
   session (snd (display_chat_history echo_chain second_input
                   (run_session [(echo_env, example_input)] (new_session Map.empty))))
     = \<lparr>history = Some [(''What color is the sky?'', ''What color is the sky?''),
                         (''Is grass green?'', ''What color is the sky?Is grass green?'')],
        generated = Some [greeting_generated, ''What color is the sky?'',
                          ''What color is the sky?Is grass green?''],
        past = Some [greeting_past, ''What color is the sky?'', ''Is grass green?''],
        hf_api_key = Some (Some ''hf_token'')\<rparr>"
  using history_is_successful_turns
    [of "[(echo_env, example_input)]" echo_chain "''Is grass green?''"
        "[(''What color is the sky?'', ''What color is the sky?'')]"
        "''What color is the sky?Is grass green?''"
        "run_session [(echo_env, example_input)] (new_session Map.empty)"
        "[greeting_past, ''What color is the sky?'']"
        "[greeting_generated, ''What color is the sky?'']"
        second_input "Map.empty" "[(echo_env, second_input)]" second_input echo_env]
  by (simp add: model_defs example_defs)

section \<open>The unused retrieval model\<close>

text \<open>
  Claim C6, as stated: the chain built by \<^verbatim>\<open>create_conversational_chain\<close> gives, for every
  question, the output of a chain built without constructing the retrieval model, so that
  only the retrieval index and the generation model determine behaviour. It fails when
  the construction of the retrieval model raises: the builder of the script then raises
  and builds no chain, while the builder without that model returns a chain that answers.
\<close>

theorem retriever_construction_counterexample:
  "fst (create_conversational_chain retriever_down_env [] (Some ''hf_token'') initialized_world)
     = Inl (LibraryError ''ConnectionError'') \<and>
   fst (create_single_model_chain retriever_down_env [] (Some ''hf_token'') initialized_world)
     = Inr example_chain \<and>
   example_chain ''What color is the sky?'' [] = Inr ''blue''"
  by (simp add: model_defs example_defs)

text \<open>
  Claim C6, amended: the retrieval language model is never invoked. Whenever its
  construction returns, \<^verbatim>\<open>create_conversational_chain\<close> returns what the builder without
  it returns, the same chain or the same exception, so every question gets the same
  output from both chains; the runs differ only in the trace entry of the construction.
\<close>

theorem retriever_model_unused:
  assumes "HuggingFaceHub E ''google/flan-t5-small'' llm_kwargs key = Inr retriever_llm"
  shows "fst (create_conversational_chain E vector_store key w)
           = fst (create_single_model_chain E vector_store key w) \<and>
         snd (create_conversational_chain E vector_store key w)
           = snd (create_single_model_chain E vector_store key (log [NewLlm ''google/flan-t5-small''] w))"
  using assms
  by (simp add: create_conversational_chain_def create_single_model_chain_def Let_def
           split: sum.splits)

theorem retriever_model_unused_witness:
  "HuggingFaceHub example_env ''google/flan-t5-small'' llm_kwargs (Some ''hf_token'')
     = Inr ''google/flan-t5-small'' \<and>
   fst (create_conversational_chain example_env [] (Some ''hf_token'') initialized_world)
     = fst (create_single_model_chain example_env [] (Some ''hf_token'') initialized_world) \<and>
   fst (create_conversational_chain example_env [] (Some ''hf_token'') initialized_world)
     = Inr example_chain"
  using retriever_model_unused
    [of example_env "Some ''hf_token''" "''google/flan-t5-small''" "[]" initialized_world]
  by (simp add: model_defs example_env_def)

section \<open>No credential\<close>

text \<open>
  Claim C7: while the session holds no credential and the prompt returns the empty
  string, \<^verbatim>\<open>main\<close> shows the title, the prompt and the warning and returns. No file is
  written or loaded, nothing is split or indexed, no chain is built or called. The
  session dictionary has its defaults filled in and the empty prompt value stored as the
  credential, nothing else changes, and the credential is still missing afterwards.
\<close>

theorem no_credential_no_processing:
  assumes "credential_missing (session w)" and "token_input inp = []"
  shows "main E inp w =
           (Inr (),
            w\<lparr>session := (initialize_session_state (session w))\<lparr>hf_api_key := Some (Some [])\<rparr>,
              trace := trace w @ [UiTitle, UiTokenInput, UiWarning]\<rparr>) \<and>
         credential_missing (session (snd (main E inp w)))"
proof -
  obtain k where k: "hf_api_key (initialize_session_state (session w)) = Some k" "\<not> truthy k"
    using assms(1)
    by (cases "hf_api_key (session w)")
       (simp_all add: initialize_hf_api_key credential_missing_def truthy_def)
  have run: "main E inp w =
           (Inr (),
            w\<lparr>session := (initialize_session_state (session w))\<lparr>hf_api_key := Some (Some [])\<rparr>,
              trace := trace w @ [UiTitle, UiTokenInput, UiWarning]\<rparr>)"
    using k assms(2) by (simp add: main_def Let_def log_def truthy_def)
  then show ?thesis
    by (simp add: credential_missing_def truthy_def)
qed

theorem no_credential_no_processing_witness:
  "credential_missing (session (new_session Map.empty)) \<and>
   token_input (example_input\<lparr>token_input := []\<rparr>) = [] \<and>
   main example_env (example_input\<lparr>token_input := []\<rparr>) (new_session Map.empty) =
     (Inr (),
      \<lparr>session = \<lparr>history = Some [], generated = Some [greeting_generated],
                   past = Some [greeting_past], hf_api_key = Some (Some [])\<rparr>,
       tmpfs = Map.empty, trace = [UiTitle, UiTokenInput, UiWarning]\<rparr>)"
  using no_credential_no_processing
    [of "new_session Map.empty" "example_input\<lparr>token_input := []\<rparr>" example_env]
  by (simp add: model_defs example_defs)

section \<open>Past and generated\<close>

text \<open>
  Claim C9: in every reachable session state \<^verbatim>\<open>past\<close> and \<^verbatim>\<open>generated\<close> have equal
  length, the rendering loop reads no index out of range, and the displayed transcript
  always contains one more pair than the turn history. The two lists do stay aligned, but
  the last part is broken by a run that is stopped when the spinner closes: the pair is
  in the history, appended inside \<^verbatim>\<open>conversation_chat\<close>, and the appends to \<^verbatim>\<open>past\<close> and
  \<^verbatim>\<open>generated\<close> after the \<^verbatim>\<open>with\<close> block are never reached. Evaluated on a session of one
  completed turn followed by a turn stopped there: the second run ends with
  \<open>ScriptStopped\<close>, the history has two pairs, \<^verbatim>\<open>past\<close> and \<^verbatim>\<open>generated\<close> have two entries
  each, and the transcript rendered from that state (the messages \<^verbatim>\<open>render_replies\<close> writes,
  starting from an empty trace) shows two pairs, the greeting and the first turn, not
  three.
\<close>

theorem stopped_turn_missing_from_transcript:
  "fst (main echo_env stopped_input
          (run_session [(echo_env, example_input)] (new_session Map.empty)))
     = Inl ScriptStopped \<and>
   history (session (run_session [(echo_env, example_input), (echo_env, stopped_input)]
                       (new_session Map.empty)))
     = Some [(''What color is the sky?'', ''What color is the sky?''),
             (''Is grass green?'', ''What color is the sky?Is grass green?'')] \<and>
   past (session (run_session [(echo_env, example_input), (echo_env, stopped_input)]
                    (new_session Map.empty)))
     = Some [greeting_past, ''What color is the sky?''] \<and>
   generated (session (run_session [(echo_env, example_input), (echo_env, stopped_input)]
                         (new_session Map.empty)))
     = Some [greeting_generated, ''What color is the sky?''] \<and>
   trace (snd (render_replies
                 ((run_session [(echo_env, example_input), (echo_env, stopped_input)]
                     (new_session Map.empty))\<lparr>trace := []\<rparr>)))
     = [UiMessage greeting_past True, UiMessage greeting_generated False,
        UiMessage ''What color is the sky?'' True, UiMessage ''What color is the sky?'' False]"
  by (simp add: model_defs example_defs)

section \<open>An empty question\<close>

text \<open>
  Claim C10: when the form is submitted with an empty question, \<^verbatim>\<open>display_chat_history\<close>
  only renders the transcript: the chain is not called and the session dictionary, with
  its history, \<^verbatim>\<open>past\<close> and \<^verbatim>\<open>generated\<close>, is unchanged.
\<close>

theorem empty_question_no_turn:
  assumes "user_input inp = []"
  shows "display_chat_history chain inp w = render_replies (log [UiForm] w) \<and>
         session (snd (display_chat_history chain inp w)) = session w \<and>
         filter is_chain_call (trace (snd (display_chat_history chain inp w)))
           = filter is_chain_call (trace w)"
proof -
  have eq: "display_chat_history chain inp w = render_replies (log [UiForm] w)"
    using assms by (simp add: display_no_submit)
  obtain evs where "trace (snd (render_replies (log [UiForm] w))) = trace (log [UiForm] w) @ evs"
    and "filter is_chain_call evs = []"
    using render_replies_trace by blast
  then show ?thesis by (simp add: eq)
qed

theorem empty_question_no_turn_witness:
  "user_input (example_input\<lparr>user_input := []\<rparr>) = [] \<and>
   session (snd (display_chat_history failing_chain (example_input\<lparr>user_input := []\<rparr>)
                   initialized_world))
     = session initialized_world \<and>
   trace (snd (display_chat_history failing_chain (example_input\<lparr>user_input := []\<rparr>)
                 initialized_world))
     = [UiForm, UiMessage greeting_past True, UiMessage greeting_generated False]"
  using empty_question_no_turn [of "example_input\<lparr>user_input := []\<rparr>" failing_chain initialized_world]
  by (simp add: model_defs example_defs)

end
